theory Spec2Isabelle
  imports Main
begin

section \<open>The jquery-loading plugin (dist/jquery.loading.js)\<close>

text \<open>
  The plugin attaches a \<^emph>\<open>Loading\<close> object to a DOM element. The object owns an overlay
  node that it prepends to the document body, and it talks to the outside through three
  jQuery events triggered on the element: \<^verbatim>\<open>loading.start\<close>, \<^verbatim>\<open>loading.stop\<close> and
  \<^verbatim>\<open>loading.click\<close>.

  The embedding keeps the objects of the script in explicit heaps: Loading objects and
  overlay nodes live in lists and are named by their index, closures that capture
  \<^verbatim>\<open>self\<close> are values that carry the index of the captured object, and every function of
  the script is a function on the record \<open>world\<close>. A JavaScript exception is the result
  \<open>Thrown\<close>, which keeps the world as the exception left it.

  What jQuery contributes is written out where the script relies on it:
  \<^item> \<^verbatim>\<open>$.extend({}, a, b)\<close> copies the keys of \<open>a\<close> and then those of \<open>b\<close>;
  \<^item> \<^verbatim>\<open>.hide()\<close> hides a node at once; \<^verbatim>\<open>.fadeIn(ms)\<close> and \<^verbatim>\<open>.fadeOut(ms)\<close> enter the
    node's effects queue: a fade-in that starts on a hidden node displays it when it
    starts, a fade-out hides the node only when it completes, and a fade that finds
    nothing to do completes at once;
  \<^item> \<^verbatim>\<open>.is(':visible')\<close> on the overlay is read as "the node is displayed";
  \<^item> \<^verbatim>\<open>.trigger(name, x)\<close> calls the handlers bound under \<open>name\<close> on the element in
    binding order, each with \<open>x\<close> as second argument; an exception stops the dispatch;
  \<^item> inside a handler bound with \<^verbatim>\<open>.on\<close>, \<^verbatim>\<open>this\<close> is the DOM node the handler is bound to.

  The embedding stops at the following borders. Elements are taken one by one: the DOM
  tree is not represented, so a notification reaches the handlers bound on the element it
  is triggered on and no ancestor. Of an overlay the model keeps what the script computes
  (theme class, message, position, z-index, id, geometry, click handlers, visibility); the
  inner content node and the constant styles are left out. A hook supplied by a caller is
  one of the three shapes the defaults have.
\<close>

subsection \<open>Configuration\<close>

text \<open>
  A callback hook is a function of one argument. The model knows the three shapes of
  \<^verbatim>\<open>Loading.defaults\<close>: fade the argument's overlay in, fade it out, do nothing.
\<close>

datatype callback = FadeInOverlay nat | FadeOutOverlay nat | Nop

text \<open>
  The settings object. The six keys of \<^verbatim>\<open>Loading.defaults\<close> are always present;
  \<open>fullPage\<close> and \<open>start\<close> are present only when something has put them there.
  Other keys are never read by the script and are left out.
\<close>

record settings =
  message :: string
  theme :: string
  stoppable :: bool
  onStart :: callback
  onStop :: callback
  onClick :: callback
  fullPage :: "bool option"
  start_flag :: "bool option"

text \<open>An options object, as a caller passes it: any subset of the keys. A key whose value
  is \<^verbatim>\<open>undefined\<close> is skipped by \<^verbatim>\<open>$.extend\<close> and counts as absent.\<close>

record options =
  o_message :: "string option"
  o_theme :: "string option"
  o_stoppable :: "bool option"
  o_onStart :: "callback option"
  o_onStop :: "callback option"
  o_onClick :: "callback option"
  o_fullPage :: "bool option"
  o_start :: "bool option"

definition no_options :: options where
  "no_options = \<lparr>o_message = None, o_theme = None, o_stoppable = None, o_onStart = None,
     o_onStop = None, o_onClick = None, o_fullPage = None, o_start = None\<rparr>"

text \<open>\<^verbatim>\<open>Loading.defaults\<close> as the script declares it (lines 19 to 63).\<close>

definition Loading_defaults :: settings where
  "Loading_defaults = \<lparr>message = ''Loading...'', theme = ''light'', stoppable = False,
     onStart = FadeInOverlay 150, onStop = FadeOutOverlay 150, onClick = Nop,
     fullPage = None, start_flag = None\<rparr>"

fun pick :: "'a option \<Rightarrow> 'a \<Rightarrow> 'a" where
  "pick None d = d"
| "pick (Some v) d = v"

fun pick_opt :: "'a option \<Rightarrow> 'a option \<Rightarrow> 'a option" where
  "pick_opt None d = d"
| "pick_opt (Some v) d = Some v"

text \<open>\<^verbatim>\<open>$.extend({}, s, p)\<close>: the keys of \<open>p\<close> override those of \<open>s\<close>.\<close>

definition jq_extend :: "settings \<Rightarrow> options \<Rightarrow> settings" where
  "jq_extend s p = \<lparr>message = pick (o_message p) (message s),
     theme = pick (o_theme p) (theme s),
     stoppable = pick (o_stoppable p) (stoppable s),
     onStart = pick (o_onStart p) (onStart s),
     onStop = pick (o_onStop p) (onStop s),
     onClick = pick (o_onClick p) (onClick s),
     fullPage = pick_opt (o_fullPage p) (fullPage s),
     start_flag = pick_opt (o_start p) (start_flag s)\<rparr>"

text \<open>Reading a settings object and an options object key by key.\<close>

datatype key = Message | Theme | Stoppable | OnStart | OnStop | OnClick | FullPage | Start

datatype val = Str string | Bool bool | Fn callback

fun setting :: "settings \<Rightarrow> key \<Rightarrow> val option" where
  "setting s Message = Some (Str (message s))"
| "setting s Theme = Some (Str (theme s))"
| "setting s Stoppable = Some (Bool (stoppable s))"
| "setting s OnStart = Some (Fn (onStart s))"
| "setting s OnStop = Some (Fn (onStop s))"
| "setting s OnClick = Some (Fn (onClick s))"
| "setting s FullPage = map_option Bool (fullPage s)"
| "setting s Start = map_option Bool (start_flag s)"

fun given :: "options \<Rightarrow> key \<Rightarrow> val option" where
  "given p Message = map_option Str (o_message p)"
| "given p Theme = map_option Str (o_theme p)"
| "given p Stoppable = map_option Bool (o_stoppable p)"
| "given p OnStart = map_option Fn (o_onStart p)"
| "given p OnStop = map_option Fn (o_onStop p)"
| "given p OnClick = map_option Fn (o_onClick p)"
| "given p FullPage = map_option Bool (o_fullPage p)"
| "given p Start = map_option Bool (o_start p)"

subsection \<open>The effects queue of a node\<close>

datatype fx = FadeIn nat | FadeOut nat

text \<open>
  A node is either at rest, hidden or displayed, or it is displayed with a fade running
  and further fades waiting behind it.
\<close>

datatype anim = Idle bool | Running fx "fx list"

fun hidden :: "anim \<Rightarrow> bool" where
  "hidden (Idle h) = h"
| "hidden (Running f q) = False"

fun starts :: "fx \<Rightarrow> bool \<Rightarrow> bool" where
  "starts (FadeIn d) h = h"
| "starts (FadeOut d) h = (\<not> h)"

fun is_fade_out :: "fx \<Rightarrow> bool" where
  "is_fade_out (FadeIn d) = False"
| "is_fade_out (FadeOut d) = True"

text \<open>Take the next fade from the queue of a node at rest; fades with nothing to do
  complete at once.\<close>

fun run_queue :: "bool \<Rightarrow> fx list \<Rightarrow> anim" where
  "run_queue h [] = Idle h"
| "run_queue h (f # q) = (if starts f h then Running f q else run_queue h q)"

fun enqueue :: "fx \<Rightarrow> anim \<Rightarrow> anim" where
  "enqueue f (Idle h) = run_queue h [f]"
| "enqueue f (Running g q) = Running g (q @ [f])"

text \<open>The running fade completes: a fade-out leaves the node hidden.\<close>

fun finish :: "anim \<Rightarrow> anim" where
  "finish (Idle h) = Idle h"
| "finish (Running g q) = run_queue (is_fade_out g) q"

fun pending :: "anim \<Rightarrow> nat" where
  "pending (Idle h) = 0"
| "pending (Running g q) = Suc (length q)"

text \<open>All fades of the queue run to completion.\<close>

function settle :: "anim \<Rightarrow> anim" where
  "settle (Idle h) = Idle h"
| "settle (Running g q) = settle (finish (Running g q))"
  by pat_completeness auto
termination
proof (relation "measure pending")
  show "wf (measure pending)" by simp
next
  fix g :: fx and q :: "fx list"
  have "pending (run_queue h q) \<le> length q" for h
    by (induction q arbitrary: h) (auto simp: le_SucI)
  then show "(finish (Running g q), Running g q) \<in> measure pending"
    by (simp add: le_imp_less_Suc)
qed

subsection \<open>The DOM, the objects and the world\<close>

type_synonym elem = nat
type_synonym iid = nat
type_synonym ovid = nat

text \<open>What the script reads of a target element.\<close>

record dom_elem =
  is_body :: bool
  attr_id :: "string option"
  offset_top :: int
  offset_left :: int
  outerWidth :: int
  outerHeight :: int

datatype dim = Px int | Percent nat

text \<open>The two click handlers the script binds on an overlay; each captures \<^verbatim>\<open>self\<close>.\<close>

datatype click_handler = StopOnClick iid | TriggerClick iid

record overlay_node =
  theme_class :: string
  content :: string
  css_position :: string
  css_zIndex :: nat
  fx_state :: anim
  node_id :: "string option"
  css_top :: int
  css_left :: int
  css_width :: dim
  css_height :: dim
  on_click :: "click_handler list"

text \<open>A Loading object; \<open>overlay\<close> is undefined until \<^verbatim>\<open>initOverlay\<close> has run.\<close>

record loading =
  element :: elem
  settings :: settings
  overlay :: "ovid option"

text \<open>The three handlers of \<^verbatim>\<open>attachOptionsHandlers\<close>; each captures \<^verbatim>\<open>self\<close> and reads
  the hook from \<^verbatim>\<open>self.settings\<close> when it is called.\<close>

datatype hook = CallOnStart iid | CallOnStop iid | CallOnClick iid

text \<open>The second argument of \<^verbatim>\<open>trigger\<close>: a Loading object or a DOM node.\<close>

datatype payload = Instance iid | Node ovid

record world =
  defaults :: settings
  layout :: "elem \<Rightarrow> dom_elem"
  data :: "elem \<Rightarrow> iid option"
  insts :: "loading list"
  nodes :: "overlay_node list"
  body :: "ovid list"
  bound :: "(elem \<times> string \<times> hook) list"
  on_resize :: "iid list"
  on_ready :: "iid list"
  fired :: "(elem \<times> string \<times> payload) list"

datatype error = TypeError

datatype result = Done world | Thrown error world

fun world_of :: "result \<Rightarrow> world" where
  "world_of (Done w) = w"
| "world_of (Thrown e w) = w"


definition fetch :: "'a list \<Rightarrow> nat \<Rightarrow> 'a option" where
  "fetch xs i = (if i < length xs then Some (xs ! i) else None)"

text \<open>The overlay node of a Loading object, with its index.\<close>

definition node_of :: "world \<Rightarrow> iid \<Rightarrow> (ovid \<times> overlay_node) option" where
  "node_of w i =
     (case fetch (insts w) i of
        None \<Rightarrow> None
      | Some l \<Rightarrow>
          (case overlay l of
             None \<Rightarrow> None
           | Some ov \<Rightarrow> map_option (\<lambda>n. (ov, n)) (fetch (nodes w) ov)))"

definition empty_world :: "(elem \<Rightarrow> dom_elem) \<Rightarrow> world" where
  "empty_world lay = \<lparr>defaults = Loading_defaults, layout = lay, data = (\<lambda>e. None),
     insts = [], nodes = [], body = [], bound = [], on_resize = [], on_ready = [],
     fired = []\<rparr>"

subsection \<open>The methods of a Loading object\<close>

text \<open>
  The methods that build and lay out the overlay cannot fail on an object the
  constructor has made. On an index that names no object they leave the world as it is;
  no call of the script reaches that case.
\<close>

definition set_node :: "world \<Rightarrow> ovid \<Rightarrow> overlay_node \<Rightarrow> world" where
  "set_node w ov n = w\<lparr>nodes := (nodes w)[ov := n]\<rparr>"

text \<open>\<^verbatim>\<open>resize\<close> (lines 168 to 184).\<close>

definition resize :: "world \<Rightarrow> iid \<Rightarrow> world" where
  "resize w i =
     (case fetch (insts w) i of
        None \<Rightarrow> w
      | Some l \<Rightarrow>
          (case node_of w i of
             None \<Rightarrow> w
           | Some (ov, n) \<Rightarrow>
               (let d = layout w (element l);
                    full = (fullPage (settings l) = Some True);
                    totalWidth = (if full then Percent 100 else Px (outerWidth d));
                    totalHeight = (if full then Percent 100 else Px (outerHeight d))
                in set_node w ov (n\<lparr>css_top := offset_top d, css_left := offset_left d,
                     css_width := totalWidth, css_height := totalHeight\<rparr>))))"

text \<open>\<^verbatim>\<open>initOverlay\<close> (lines 86 to 111): a new node, hidden, prepended to the body.\<close>

definition overlay_id :: "string option \<Rightarrow> string option" where
  "overlay_id eid =
     (case eid of
        None \<Rightarrow> None
      | Some x \<Rightarrow> (if x = [] then None else Some (x @ ''_loading-overlay'')))"

definition initOverlay :: "world \<Rightarrow> iid \<Rightarrow> world" where
  "initOverlay w i =
     (case fetch (insts w) i of
        None \<Rightarrow> w
      | Some l \<Rightarrow>
          (let s = settings l;
               full = (fullPage s = Some True);
               ov = length (nodes w);
               n = \<lparr>theme_class = ''loading-overlay loading-theme-'' @ theme s,
                    content = message s,
                    css_position = (if full then ''fixed'' else ''absolute''),
                    css_zIndex = 9 + (if full then 1 else 0),
                    fx_state = Idle True,
                    node_id = overlay_id (attr_id (layout w (element l))),
                    css_top = 0, css_left = 0, css_width = Px 0, css_height = Px 0,
                    on_click = []\<rparr>
           in resize (w\<lparr>nodes := nodes w @ [n],
                        insts := (insts w)[i := l\<lparr>overlay := Some ov\<rparr>],
                        body := ov # body w\<rparr>) i))"

text \<open>\<^verbatim>\<open>attachMethodsToExternalEvents\<close> (lines 117 to 142).\<close>

definition attachMethodsToExternalEvents :: "world \<Rightarrow> iid \<Rightarrow> world" where
  "attachMethodsToExternalEvents w i =
     (case fetch (insts w) i of
        None \<Rightarrow> w
      | Some l \<Rightarrow>
          (case node_of w i of
             None \<Rightarrow> w
           | Some (ov, n) \<Rightarrow>
               (let hs = (if stoppable (settings l) then [StopOnClick i] else [])
                           @ [TriggerClick i]
                in (set_node w ov (n\<lparr>on_click := on_click n @ hs\<rparr>))
                     \<lparr>on_resize := on_resize w @ [i], on_ready := on_ready w @ [i]\<rparr>)))"

text \<open>\<^verbatim>\<open>attachOptionsHandlers\<close> (lines 147 to 161).\<close>

definition attachOptionsHandlers :: "world \<Rightarrow> iid \<Rightarrow> world" where
  "attachOptionsHandlers w i =
     (case fetch (insts w) i of
        None \<Rightarrow> w
      | Some l \<Rightarrow>
          w\<lparr>bound := bound w @
               [(element l, ''loading.start'', CallOnStart i),
                (element l, ''loading.stop'', CallOnStop i),
                (element l, ''loading.click'', CallOnClick i)]\<rparr>)"

definition init :: "world \<Rightarrow> iid \<Rightarrow> world" where
  "init w i = attachOptionsHandlers (attachMethodsToExternalEvents (initOverlay w i) i) i"

text \<open>The constructor (lines 11 to 17); it returns the world and the new object.\<close>

definition new_Loading :: "world \<Rightarrow> elem \<Rightarrow> options \<Rightarrow> world \<times> iid" where
  "new_Loading w e p =
     (let i = length (insts w);
          s = (jq_extend (defaults w) p)\<lparr>fullPage := Some (is_body (layout w e))\<rparr>;
          l = \<lparr>element = e, settings = s, overlay = None\<rparr>
      in (init (w\<lparr>insts := insts w @ [l]\<rparr>) i, i))"

text \<open>\<^verbatim>\<open>Loading.setDefaults\<close> (lines 68 to 70).\<close>

definition setDefaults :: "world \<Rightarrow> options \<Rightarrow> world" where
  "setDefaults w p = w\<lparr>defaults := jq_extend (defaults w) p\<rparr>"

text \<open>\<^verbatim>\<open>options\<close> (lines 221 to 223).\<close>

definition options :: "world \<Rightarrow> iid \<Rightarrow> options \<Rightarrow> world" where
  "options w i p =
     (case fetch (insts w) i of
        None \<Rightarrow> w
      | Some l \<Rightarrow> w\<lparr>insts := (insts w)[i := l\<lparr>settings := jq_extend (settings l) p\<rparr>]\<rparr>)"

text \<open>\<^verbatim>\<open>active\<close> (lines 203 to 205).\<close>

definition active :: "world \<Rightarrow> iid \<Rightarrow> bool" where
  "active w i =
     (case node_of w i of
        None \<Rightarrow> False
      | Some (ov, n) \<Rightarrow> \<not> hidden (fx_state n))"

subsection \<open>Events\<close>

text \<open>
  \<^verbatim>\<open>x.overlay.fadeIn(ms)\<close> and \<^verbatim>\<open>x.overlay.fadeOut(ms)\<close>, for the argument \<open>x\<close> a hook
  receives. A DOM node has no property \<^verbatim>\<open>overlay\<close>, so the call throws on it.
\<close>

fun fade :: "world \<Rightarrow> payload \<Rightarrow> fx \<Rightarrow> result" where
  "fade w (Node ov) f = Thrown TypeError w"
| "fade w (Instance j) f =
     (case node_of w j of
        None \<Rightarrow> Thrown TypeError w
      | Some (ov, n) \<Rightarrow> Done (set_node w ov (n\<lparr>fx_state := enqueue f (fx_state n)\<rparr>)))"

fun invoke :: "world \<Rightarrow> callback \<Rightarrow> payload \<Rightarrow> result" where
  "invoke w (FadeInOverlay d) x = fade w x (FadeIn d)"
| "invoke w (FadeOutOverlay d) x = fade w x (FadeOut d)"
| "invoke w Nop x = Done w"

fun hook_inst :: "hook \<Rightarrow> iid" where
  "hook_inst (CallOnStart i) = i"
| "hook_inst (CallOnStop i) = i"
| "hook_inst (CallOnClick i) = i"

fun hook_callback :: "hook \<Rightarrow> settings \<Rightarrow> callback" where
  "hook_callback (CallOnStart i) s = onStart s"
| "hook_callback (CallOnStop i) s = onStop s"
| "hook_callback (CallOnClick i) s = onClick s"

definition call_hook :: "world \<Rightarrow> hook \<Rightarrow> payload \<Rightarrow> result" where
  "call_hook w h x =
     (case fetch (insts w) (hook_inst h) of
        None \<Rightarrow> Thrown TypeError w
      | Some l \<Rightarrow> invoke w (hook_callback h (settings l)) x)"

fun run_hooks :: "world \<Rightarrow> hook list \<Rightarrow> payload \<Rightarrow> result" where
  "run_hooks w [] x = Done w"
| "run_hooks w (h # hs) x =
     (case call_hook w h x of
        Done w' \<Rightarrow> run_hooks w' hs x
      | Thrown e w' \<Rightarrow> Thrown e w')"

definition handlers_for :: "world \<Rightarrow> elem \<Rightarrow> string \<Rightarrow> hook list" where
  "handlers_for w e ev =
     map (\<lambda>(e', ev', h). h) (filter (\<lambda>(e', ev', h). e' = e \<and> ev' = ev) (bound w))"

text \<open>\<^verbatim>\<open>element.trigger(ev, x)\<close>; \<open>fired\<close> records the call.\<close>

definition trigger :: "world \<Rightarrow> elem \<Rightarrow> string \<Rightarrow> payload \<Rightarrow> result" where
  "trigger w e ev x =
     run_hooks (w\<lparr>fired := fired w @ [(e, ev, x)]\<rparr>) (handlers_for w e ev) x"

text \<open>\<^verbatim>\<open>start\<close>, \<^verbatim>\<open>stop\<close> and \<^verbatim>\<open>toggle\<close> (lines 189 to 216).\<close>

definition start :: "world \<Rightarrow> iid \<Rightarrow> result" where
  "start w i =
     (case fetch (insts w) i of
        None \<Rightarrow> Thrown TypeError w
      | Some l \<Rightarrow> trigger w (element l) ''loading.start'' (Instance i))"

definition stop :: "world \<Rightarrow> iid \<Rightarrow> result" where
  "stop w i =
     (case fetch (insts w) i of
        None \<Rightarrow> Thrown TypeError w
      | Some l \<Rightarrow> trigger w (element l) ''loading.stop'' (Instance i))"

definition toggle :: "world \<Rightarrow> iid \<Rightarrow> result" where
  "toggle w i = (if active w i then stop w i else start w i)"

text \<open>
  A click on the overlay node \<open>ov\<close>: its click handlers run in binding order. In the
  second handler of the script (line 129) \<^verbatim>\<open>this\<close> is the clicked node.
\<close>

fun call_click :: "world \<Rightarrow> click_handler \<Rightarrow> ovid \<Rightarrow> result" where
  "call_click w (StopOnClick i) ov = stop w i"
| "call_click w (TriggerClick i) ov =
     (case fetch (insts w) i of
        None \<Rightarrow> Thrown TypeError w
      | Some l \<Rightarrow> trigger w (element l) ''loading.click'' (Node ov))"

fun run_clicks :: "world \<Rightarrow> click_handler list \<Rightarrow> ovid \<Rightarrow> result" where
  "run_clicks w [] ov = Done w"
| "run_clicks w (c # cs) ov =
     (case call_click w c ov of
        Done w' \<Rightarrow> run_clicks w' cs ov
      | Thrown e w' \<Rightarrow> Thrown e w')"

definition click :: "world \<Rightarrow> ovid \<Rightarrow> result" where
  "click w ov =
     (case fetch (nodes w) ov of
        None \<Rightarrow> Done w
      | Some n \<Rightarrow> run_clicks w (on_click n) ov)"

text \<open>The window is resized; the document becomes ready; the fades of a node complete.\<close>

definition window_resize :: "world \<Rightarrow> world" where
  "window_resize w = fold (\<lambda>i w'. resize w' i) (on_resize w) w"

definition document_ready :: "world \<Rightarrow> world" where
  "document_ready w = fold (\<lambda>i w'. resize w' i) (on_ready w) w"

definition fades_complete :: "world \<Rightarrow> ovid \<Rightarrow> world" where
  "fades_complete w ov =
     (case fetch (nodes w) ov of
        None \<Rightarrow> w
      | Some n \<Rightarrow> set_node w ov (n\<lparr>fx_state := settle (fx_state n)\<rparr>))"

subsection \<open>The jQuery method and the selector\<close>

text \<open>
  The first argument of \<^verbatim>\<open>$(...).loading(...)\<close>: nothing, an options object, or a string
  followed by further arguments. The constructor receives that first argument as its
  options; of a string \<^verbatim>\<open>$.extend\<close> copies only the index keys, none of which is a setting.
\<close>

datatype arg = NoArg | Config options | Method string "options list"

fun ctor_options :: "arg \<Rightarrow> options" where
  "ctor_options (Config p) = p"
| "ctor_options a = no_options"

text \<open>
  \<^verbatim>\<open>loading[name].apply(loading, otherArgs)\<close> (line 246). The ten methods of the
  prototype are called; the four data properties are not functions; any other name is
  looked up in what the object inherits from outside the script, given here as \<open>host\<close>.
  A name that resolves to nothing, or to something that is not a function, throws.
\<close>

definition call_method ::
  "(string \<Rightarrow> (world \<Rightarrow> result) option) \<Rightarrow> world \<Rightarrow> iid \<Rightarrow> string \<Rightarrow> options list \<Rightarrow> result" where
  "call_method host w i name args =
     (if name = ''init'' then Done (init w i)
      else if name = ''initOverlay'' then Done (initOverlay w i)
      else if name = ''attachMethodsToExternalEvents'' then Done (attachMethodsToExternalEvents w i)
      else if name = ''attachOptionsHandlers'' then Done (attachOptionsHandlers w i)
      else if name = ''resize'' then Done (resize w i)
      else if name = ''start'' then start w i
      else if name = ''stop'' then stop w i
      else if name = ''active'' then Done w
      else if name = ''toggle'' then toggle w i
      else if name = ''options'' then
        Done (options w i (case args of [] \<Rightarrow> no_options | p # ps \<Rightarrow> p))
      else if name \<in> set [''element'', ''settings'', ''overlay'', ''overlayContent''] then
        Thrown TypeError w
      else (case host name of None \<Rightarrow> Thrown TypeError w | Some f \<Rightarrow> f w))"

text \<open>The body of \<^verbatim>\<open>this.each\<close> in \<^verbatim>\<open>$.fn.loading\<close> (lines 239 to 250), for one element.\<close>

definition attach :: "world \<Rightarrow> elem \<Rightarrow> arg \<Rightarrow> world \<times> iid" where
  "attach w e a =
     (case data w e of
        Some i \<Rightarrow> (w, i)
      | None \<Rightarrow>
          (let (w', i) = new_Loading w e (ctor_options a)
           in (w'\<lparr>data := (data w')(e := Some i)\<rparr>, i)))"

definition loading_each ::
  "(string \<Rightarrow> (world \<Rightarrow> result) option) \<Rightarrow> world \<Rightarrow> elem \<Rightarrow> arg \<Rightarrow> result" where
  "loading_each host w e a =
     (let (w1, i) = attach w e a
      in (case a of
            Method name args \<Rightarrow> call_method host w1 i name args
          | _ \<Rightarrow> start w1 i))"

fun fn_loading ::
  "(string \<Rightarrow> (world \<Rightarrow> result) option) \<Rightarrow> world \<Rightarrow> elem list \<Rightarrow> arg \<Rightarrow> result" where
  "fn_loading host w [] a = Done w"
| "fn_loading host w (e # es) a =
     (case loading_each host w e a of
        Done w' \<Rightarrow> fn_loading host w' es a
      | Thrown x w' \<Rightarrow> Thrown x w')"

text \<open>The \<^verbatim>\<open>:loading\<close> selector (lines 259 to 267).\<close>

definition loading_selector :: "world \<Rightarrow> elem \<Rightarrow> bool" where
  "loading_selector w e =
     (case data w e of
        None \<Rightarrow> False
      | Some i \<Rightarrow> active w i)"

text \<open>The names of the methods the script puts on the prototype (lines 72 to 224).\<close>

definition prototype_methods :: "string list" where
  "prototype_methods = [''init'', ''initOverlay'', ''attachMethodsToExternalEvents'',
     ''attachOptionsHandlers'', ''resize'', ''start'', ''stop'', ''active'', ''toggle'',
     ''options'']"

subsection \<open>A page to run the script on\<close>

text \<open>
  Element 0 is the body; element 1 is a box with id \<^verbatim>\<open>box\<close>. Nothing is inherited from
  outside the script. \<open>demo_world\<close> is the page after \<^verbatim>\<open>$('#box').loading()\<close>.
\<close>

definition demo_layout :: "elem \<Rightarrow> dom_elem" where
  "demo_layout e = \<lparr>is_body = (e = 0), attr_id = (if e = 1 then Some ''box'' else None),
     offset_top = 10, offset_left = 20, outerWidth = 300, outerHeight = 200\<rparr>"

definition no_host :: "string \<Rightarrow> (world \<Rightarrow> result) option" where
  "no_host name = None"

definition demo_world :: world where
  "demo_world = world_of (loading_each no_host (empty_world demo_layout) 1 NoArg)"

text \<open>The Loading object of \<open>demo_world\<close>, and two options objects.\<close>

definition demo_loading :: loading where
  "demo_loading = \<lparr>element = 1, settings = Loading_defaults\<lparr>fullPage := Some False\<rparr>,
     overlay = Some 0\<rparr>"

definition full_page_options :: options where
  "full_page_options = no_options\<lparr>o_fullPage := Some True\<rparr>"

definition wait_options :: options where
  "wait_options = no_options\<lparr>o_message := Some ''Wait''\<rparr>"










subsection \<open>Reading a dispatch\<close>

text \<open>The hook a bound handler will call, if the object it captured exists, and the
  fades the hooks of a handler list ask for.\<close>

definition hook_effect :: "world \<Rightarrow> hook \<Rightarrow> callback option" where
  "hook_effect w h =
     map_option (\<lambda>l. hook_callback h (settings l)) (fetch (insts w) (hook_inst h))"

fun callback_fx :: "callback \<Rightarrow> fx list" where
  "callback_fx (FadeInOverlay d) = [FadeIn d]"
| "callback_fx (FadeOutOverlay d) = [FadeOut d]"
| "callback_fx Nop = []"

definition hooks_fx :: "world \<Rightarrow> hook list \<Rightarrow> fx list" where
  "hooks_fx w hs =
     concat (map (\<lambda>h. case hook_effect w h of None \<Rightarrow> [] | Some c \<Rightarrow> callback_fx c) hs)"

fun hook_event :: "hook \<Rightarrow> string" where
  "hook_event (CallOnStart i) = ''loading.start''"
| "hook_event (CallOnStop i) = ''loading.stop''"
| "hook_event (CallOnClick i) = ''loading.click''"

text \<open>
  The worlds that \<^verbatim>\<open>$.fn.loading\<close> produces. Each object is the one registered for its
  element, has its three handlers bound on the element and its \<^verbatim>\<open>resize\<close> bound to the
  window and the document, and has an overlay node that carries the click handlers of
  \<^verbatim>\<open>attachMethodsToExternalEvents\<close>. Each bound handler captures an object of that
  element, and no two objects share a node.
\<close>

definition object_ok :: "world \<Rightarrow> iid \<Rightarrow> bool" where
  "object_ok w i =
     (case fetch (insts w) i of
        None \<Rightarrow> False
      | Some l \<Rightarrow>
          data w (element l) = Some i
          \<and> set [(element l, ''loading.start'', CallOnStart i),
                  (element l, ''loading.stop'', CallOnStop i),
                  (element l, ''loading.click'', CallOnClick i)] \<subseteq> set (bound w)
          \<and> i \<in> set (on_resize w) \<and> i \<in> set (on_ready w)
          \<and> (case node_of w i of
                None \<Rightarrow> False
              | Some (ov, n) \<Rightarrow>
                  on_click n = [TriggerClick i]
                  \<or> on_click n = [StopOnClick i, TriggerClick i]))"

definition hook_ok :: "world \<Rightarrow> elem \<times> string \<times> hook \<Rightarrow> bool" where
  "hook_ok w b =
     (case b of (e, ev, h) \<Rightarrow>
        ev = hook_event h \<and> map_option element (fetch (insts w) (hook_inst h)) = Some e)"

definition well_formed :: "world \<Rightarrow> bool" where
  "well_formed w \<longleftrightarrow>
     list_all (object_ok w) [0..<length (insts w)]
     \<and> list_all (hook_ok w) (bound w)
     \<and> distinct (map overlay (insts w))"

subsection \<open>Vocabulary of the properties\<close>



text \<open>Between two worlds no Loading object and no overlay node was created, and every
  object kept its overlay.\<close>

definition nothing_built :: "world \<Rightarrow> world \<Rightarrow> bool" where
  "nothing_built w w' \<longleftrightarrow>
     data w' = data w \<and> length (insts w') = length (insts w)
     \<and> map overlay (insts w') = map overlay (insts w)
     \<and> length (nodes w') = length (nodes w) \<and> body w' = body w"



fun public_call :: "arg \<Rightarrow> bool" where
  "public_call (Method name args) =
     (name \<in> set [''start'', ''stop'', ''toggle'', ''active'', ''resize'', ''options''])"
| "public_call a = True"

section \<open>Properties\<close>

subsection \<open>Running the script on the page\<close>

lemmas script_defs = loading_each_def attach_def empty_world_def new_Loading_def init_def
  initOverlay_def attachMethodsToExternalEvents_def attachOptionsHandlers_def resize_def
  fetch_def node_of_def set_node_def start_def stop_def trigger_def handlers_for_def
  call_hook_def active_def jq_extend_def no_options_def Loading_defaults_def overlay_id_def
  click_def toggle_def options_def call_method_def loading_selector_def fades_complete_def
  window_resize_def document_ready_def

lemma demo_world_eq:
  "demo_world = \<lparr>defaults = Loading_defaults, layout = demo_layout,
     data = (\<lambda>e. None)(1 := Some 0),
     insts = [\<lparr>element = 1, settings = Loading_defaults\<lparr>fullPage := Some False\<rparr>,
               overlay = Some 0\<rparr>],
     nodes = [\<lparr>theme_class = ''loading-overlay loading-theme-light'',
               content = ''Loading...'', css_position = ''absolute'', css_zIndex = 9,
               fx_state = Running (FadeIn 150) [],
               node_id = Some ''box_loading-overlay'', css_top = 10, css_left = 20,
               css_width = Px 300, css_height = Px 200,
               on_click = [TriggerClick 0]\<rparr>],
     body = [0],
     bound = [(1, ''loading.start'', CallOnStart 0), (1, ''loading.stop'', CallOnStop 0),
              (1, ''loading.click'', CallOnClick 0)],
     on_resize = [0], on_ready = [0],
     fired = [(1, ''loading.start'', Instance 0)]\<rparr>"
  by (simp add: demo_world_def no_host_def demo_layout_def script_defs Let_def)

lemma demo_fetch: "fetch (insts demo_world) 0 = Some demo_loading"
  by (simp add: demo_world_eq demo_loading_def fetch_def)

lemma wf_demo: "well_formed demo_world"
  by (simp add: demo_world_eq well_formed_def object_ok_def hook_ok_def fetch_def node_of_def)


subsection \<open>Heaps and nodes\<close>

lemma fetch_append_length [simp]: "fetch (xs @ [x]) (length xs) = Some x"
  by (simp add: fetch_def)

lemma fetch_append_old: "i < length xs \<Longrightarrow> fetch (xs @ ys) i = fetch xs i"
  by (simp add: fetch_def nth_append)

lemma set_node_same: "fetch (nodes w) ov = Some n \<Longrightarrow> set_node w ov n = w"
  by (auto simp: set_node_def fetch_def split: if_splits)

lemma set_node_twice: "set_node (set_node w ov n) ov n' = set_node w ov n'"
  by (simp add: set_node_def)

lemma set_node_fields [simp]:
  "insts (set_node w ov n) = insts w" "bound (set_node w ov n) = bound w"
  "data (set_node w ov n) = data w" "layout (set_node w ov n) = layout w"
  "body (set_node w ov n) = body w" "fired (set_node w ov n) = fired w"
  "on_resize (set_node w ov n) = on_resize w" "on_ready (set_node w ov n) = on_ready w"
  "defaults (set_node w ov n) = defaults w"
  "nodes (set_node w ov n) = (nodes w)[ov := n]"
  by (simp_all add: set_node_def)

lemma node_of_SomeD:
  "node_of w i = Some (ov, n) \<Longrightarrow>
     fetch (nodes w) ov = Some n \<and> (\<exists>l. fetch (insts w) i = Some l \<and> overlay l = Some ov)"
  by (auto simp: node_of_def split: option.splits)

lemma node_of_set_node:
  "node_of w i = Some (ov, n) \<Longrightarrow> node_of (set_node w ov n') i = Some (ov, n')"
  by (auto simp: node_of_def fetch_def split: option.splits if_splits)

lemma hook_effect_set_node [simp]: "hook_effect (set_node w ov n) h = hook_effect w h"
  by (simp add: hook_effect_def)

lemma fired_update_frames [simp]:
  "node_of (w\<lparr>fired := x\<rparr>) i = node_of w i"
  "hook_effect (w\<lparr>fired := x\<rparr>) h = hook_effect w h"
  "handlers_for (w\<lparr>fired := x\<rparr>) e ev = handlers_for w e ev"
  "hooks_fx (w\<lparr>fired := x\<rparr>) hs = hooks_fx w hs"
  by (simp_all add: node_of_def hook_effect_def handlers_for_def hooks_fx_def split: option.splits)





subsection \<open>The effects queue\<close>








subsection \<open>The constructor\<close>

lemma new_Loading_eq:
  assumes "new_Loading w e p = (w', i)"
  defines "s \<equiv> (jq_extend (defaults w) p)\<lparr>fullPage := Some (is_body (layout w e))\<rparr>"
  defines "full \<equiv> is_body (layout w e)"
  shows "i = length (insts w)"
    and "insts w' = insts w @ [\<lparr>element = e, settings = s, overlay = Some (length (nodes w))\<rparr>]"
    and "nodes w' = nodes w @
          [\<lparr>theme_class = ''loading-overlay loading-theme-'' @ theme s,
            content = message s,
            css_position = (if full then ''fixed'' else ''absolute''),
            css_zIndex = 9 + (if full then 1 else 0),
            fx_state = Idle True,
            node_id = overlay_id (attr_id (layout w e)),
            css_top = offset_top (layout w e), css_left = offset_left (layout w e),
            css_width = (if full then Percent 100 else Px (outerWidth (layout w e))),
            css_height = (if full then Percent 100 else Px (outerHeight (layout w e))),
            on_click = (if stoppable s then [StopOnClick i] else []) @ [TriggerClick i]\<rparr>]"
    and "body w' = length (nodes w) # body w"
    and "bound w' = bound w @ [(e, ''loading.start'', CallOnStart i),
            (e, ''loading.stop'', CallOnStop i), (e, ''loading.click'', CallOnClick i)]"
    and "on_resize w' = on_resize w @ [i]"
    and "on_ready w' = on_ready w @ [i]"
    and "data w' = data w" and "layout w' = layout w" and "fired w' = fired w"
    and "defaults w' = defaults w"
  using assms(1) unfolding s_def full_def
  by (auto simp add: new_Loading_def init_def initOverlay_def attachMethodsToExternalEvents_def
    attachOptionsHandlers_def resize_def node_of_def set_node_def Let_def fetch_def nth_append)

subsection \<open>Dispatching an event\<close>

text \<open>A handler that is handed a DOM node either does nothing or throws; handed a
  Loading object, the handlers of a dispatch add their fades to the queue of its overlay.\<close>

lemma invoke_Node: "world_of (invoke w c (Node ov)) = w"
  by (cases c) simp_all

lemma call_hook_Node: "world_of (call_hook w h (Node ov)) = w"
  by (simp add: call_hook_def invoke_Node split: option.splits)

lemma run_hooks_Node: "world_of (run_hooks w hs (Node ov)) = w"
proof (induction hs)
  case Nil
  show ?case by simp
next
  case (Cons h hs)
  show ?case
    using call_hook_Node [of w h ov] Cons.IH
    by (cases "call_hook w h (Node ov)") simp_all
qed


lemma call_hook_Instance:
  assumes "node_of w i = Some (ov, n)" and "hook_effect w h = Some c"
  shows "call_hook w h (Instance i) =
           Done (set_node w ov (n\<lparr>fx_state := fold enqueue (callback_fx c) (fx_state n)\<rparr>))"
proof -
  from assms(2) obtain l where l: "fetch (insts w) (hook_inst h) = Some l"
    and c: "c = hook_callback h (settings l)"
    by (auto simp: hook_effect_def)
  have same: "set_node w ov (n\<lparr>fx_state := fx_state n\<rparr>) = w"
    using node_of_SomeD [OF assms(1)] by (simp add: set_node_same)
  show ?thesis
    using assms(1) l same by (cases c) (simp_all add: call_hook_def c [symmetric])
qed

lemma run_hooks_Instance:
  assumes "node_of w i = Some (ov, n)" and "\<forall>h\<in>set hs. hook_effect w h \<noteq> None"
  shows "run_hooks w hs (Instance i) =
           Done (set_node w ov (n\<lparr>fx_state := fold enqueue (hooks_fx w hs) (fx_state n)\<rparr>))"
  using assms
proof (induction hs arbitrary: w n)
  case Nil
  then show ?case
    using node_of_SomeD [of w i ov n] by (simp add: hooks_fx_def set_node_same)
next
  case (Cons h hs)
  from Cons.prems(2) obtain c where c: "hook_effect w h = Some c" by auto
  let ?n1 = "n\<lparr>fx_state := fold enqueue (callback_fx c) (fx_state n)\<rparr>"
  let ?w1 = "set_node w ov ?n1"
  have step: "call_hook w h (Instance i) = Done ?w1"
    by (rule call_hook_Instance [OF Cons.prems(1) c])
  have n1: "node_of ?w1 i = Some (ov, ?n1)"
    by (rule node_of_set_node [OF Cons.prems(1)])
  have valid: "\<forall>h\<in>set hs. hook_effect ?w1 h \<noteq> None"
    using Cons.prems(2) by simp
  have fx: "hooks_fx ?w1 hs = hooks_fx w hs"
    by (simp add: hooks_fx_def)
  show ?case
    using Cons.IH [OF n1 valid] step c
    by (simp add: fx set_node_twice hooks_fx_def)
qed

lemma trigger_Instance:
  assumes "node_of w i = Some (ov, n)"
    and "\<forall>h\<in>set (handlers_for w e ev). hook_effect w h \<noteq> None"
  shows "trigger w e ev (Instance i) =
           Done (set_node (w\<lparr>fired := fired w @ [(e, ev, Instance i)]\<rparr>) ov
                   (n\<lparr>fx_state := fold enqueue (hooks_fx w (handlers_for w e ev)) (fx_state n)\<rparr>))"
  using run_hooks_Instance [of "w\<lparr>fired := fired w @ [(e, ev, Instance i)]\<rparr>" i ov n
      "handlers_for w e ev"] assms
  by (simp add: trigger_def)

subsection \<open>Well-formed worlds\<close>

lemma object_okD:
  assumes "well_formed w" and "fetch (insts w) i = Some l"
  shows "object_ok w i"
  using assms by (auto simp: well_formed_def list_all_iff fetch_def split: if_splits)

lemma wf_node:
  assumes "well_formed w" and "fetch (insts w) i = Some l"
  obtains ov n where "node_of w i = Some (ov, n)"
    and "on_click n = [TriggerClick i] \<or> on_click n = [StopOnClick i, TriggerClick i]"
  using object_okD [OF assms] assms(2)
  by (auto simp: object_ok_def split: option.splits)

lemma wf_registered:
  assumes "well_formed w" and "fetch (insts w) i = Some l"
  shows "data w (element l) = Some i"
  using object_okD [OF assms] assms(2) by (simp add: object_ok_def)

lemma wf_handlers_for:
  assumes wf: "well_formed w" and l: "fetch (insts w) i = Some l"
    and h: "h \<in> set (handlers_for w (element l) ev)"
  shows "hook_inst h = i \<and> hook_event h = ev"
proof -
  from h have b: "(element l, ev, h) \<in> set (bound w)"
    by (auto simp: handlers_for_def)
  with wf have ok: "hook_ok w (element l, ev, h)"
    by (auto simp: well_formed_def list_all_iff)
  then obtain l' where l': "fetch (insts w) (hook_inst h) = Some l'"
    and e: "element l' = element l" and ev: "ev = hook_event h"
    by (auto simp: hook_ok_def)
  from wf_registered [OF wf l'] wf_registered [OF wf l] e have "hook_inst h = i" by simp
  with ev show ?thesis by simp
qed

lemma wf_handlers_present:
  assumes wf: "well_formed w" and l: "fetch (insts w) i = Some l"
  shows "CallOnStart i \<in> set (handlers_for w (element l) ''loading.start'')"
    and "CallOnStop i \<in> set (handlers_for w (element l) ''loading.stop'')"
    and "CallOnClick i \<in> set (handlers_for w (element l) ''loading.click'')"
  using object_okD [OF assms] l
  by (force simp: object_ok_def handlers_for_def)+

lemma hook_eqI: "hook_inst h = hook_inst h' \<Longrightarrow> hook_event h = hook_event h' \<Longrightarrow> h = h'"
  by (cases h; cases h') simp_all

lemma wf_hooks_fx:
  assumes wf: "well_formed w" and l: "fetch (insts w) i = Some l"
    and h0: "h0 \<in> set (handlers_for w (element l) ev)"
  shows "\<exists>k>0. hooks_fx w (handlers_for w (element l) ev) =
           concat (replicate k (callback_fx (hook_callback h0 (settings l))))"
proof -
  let ?hs = "handlers_for w (element l) ev"
  have all: "h = h0" if "h \<in> set ?hs" for h
    using wf_handlers_for [OF wf l that] wf_handlers_for [OF wf l h0] by (simp add: hook_eqI)
  then have rep: "?hs = replicate (length ?hs) h0"
    by (simp add: replicate_length_same)
  have eff: "hook_effect w h0 = Some (hook_callback h0 (settings l))"
    using wf_handlers_for [OF wf l h0] l by (simp add: hook_effect_def)
  have "hooks_fx w (replicate k h0) = concat (replicate k (callback_fx (hook_callback h0 (settings l))))" for k
    by (simp add: hooks_fx_def eff map_replicate_const)
  moreover have "0 < length ?hs" using h0 by (cases ?hs) auto
  ultimately show ?thesis using rep by metis
qed

lemma wf_hooks_valid:
  assumes wf: "well_formed w"
  shows "\<forall>h\<in>set (handlers_for w e ev). hook_effect w h \<noteq> None"
proof
  fix h assume "h \<in> set (handlers_for w e ev)"
  then have "(e, ev, h) \<in> set (bound w)" by (auto simp: handlers_for_def)
  with wf have "hook_ok w (e, ev, h)" by (auto simp: well_formed_def list_all_iff)
  then show "hook_effect w h \<noteq> None" by (auto simp: hook_ok_def hook_effect_def)
qed

lemma start_wf:
  assumes wf: "well_formed w" and l: "fetch (insts w) i = Some l"
    and n: "node_of w i = Some (ov, n)"
  shows "\<exists>k>0. start w i =
           Done (set_node (w\<lparr>fired := fired w @ [(element l, ''loading.start'', Instance i)]\<rparr>) ov
             (n\<lparr>fx_state := fold enqueue (concat (replicate k (callback_fx (onStart (settings l)))))
                  (fx_state n)\<rparr>))"
  using wf_hooks_fx [OF wf l wf_handlers_present(1) [OF wf l]]
    trigger_Instance [OF n wf_hooks_valid [OF wf], of "element l" "''loading.start''"] l
  by (auto simp: start_def)

lemma stop_wf:
  assumes wf: "well_formed w" and l: "fetch (insts w) i = Some l"
    and n: "node_of w i = Some (ov, n)"
  shows "\<exists>k>0. stop w i =
           Done (set_node (w\<lparr>fired := fired w @ [(element l, ''loading.stop'', Instance i)]\<rparr>) ov
             (n\<lparr>fx_state := fold enqueue (concat (replicate k (callback_fx (onStop (settings l)))))
                  (fx_state n)\<rparr>))"
  using wf_hooks_fx [OF wf l wf_handlers_present(2) [OF wf l]]
    trigger_Instance [OF n wf_hooks_valid [OF wf], of "element l" "''loading.stop''"] l
  by (auto simp: stop_def)

subsection \<open>The invariant of the public interface\<close>

lemma well_formedI:
  assumes "\<And>j. j < length (insts w) \<Longrightarrow> object_ok w j"
    and "\<And>b. b \<in> set (bound w) \<Longrightarrow> hook_ok w b"
    and "distinct (map overlay (insts w))"
  shows "well_formed w"
  using assms by (simp add: well_formed_def list_all_iff)

lemma well_formedD:
  assumes "well_formed w"
  shows "\<And>j. j < length (insts w) \<Longrightarrow> object_ok w j"
    and "\<And>b. b \<in> set (bound w) \<Longrightarrow> hook_ok w b"
    and "distinct (map overlay (insts w))"
  using assms by (simp_all add: well_formed_def list_all_iff)

lemma object_ok_mono:
  assumes ok: "object_ok w j"
    and i: "fetch (insts w') j = fetch (insts w) j"
    and d: "\<And>l. fetch (insts w) j = Some l \<Longrightarrow> data w' (element l) = data w (element l)"
    and b: "set (bound w) \<subseteq> set (bound w')"
    and r: "set (on_resize w) \<subseteq> set (on_resize w')" "set (on_ready w) \<subseteq> set (on_ready w')"
    and n: "\<And>ov n. node_of w j = Some (ov, n) \<Longrightarrow>
              \<exists>n'. node_of w' j = Some (ov, n') \<and> on_click n' = on_click n"
  shows "object_ok w' j"
proof -
  from ok obtain l where l: "fetch (insts w) j = Some l" 
    by (auto simp: object_ok_def split: option.splits)
  from ok l obtain ov n where nd: "node_of w j = Some (ov, n)"
    and c: "on_click n = [TriggerClick j] \<or> on_click n = [StopOnClick j, TriggerClick j]"
    by (auto simp: object_ok_def split: option.splits)
  from n [OF nd] obtain n' where n': "node_of w' j = Some (ov, n')" "on_click n' = on_click n"
    by blast
  show ?thesis
    using ok l i d [OF l] b r n' c
    by (auto simp: object_ok_def)
qed

lemma hook_ok_mono:
  assumes "hook_ok w b"
    and "\<And>k l. fetch (insts w) k = Some l \<Longrightarrow> map_option element (fetch (insts w') k) = Some (element l)"
  shows "hook_ok w' b"
  using assms by (cases b) (auto simp: hook_ok_def)

lemma object_ok_fired [simp]: "object_ok (w\<lparr>fired := x\<rparr>) = object_ok w"
  by (rule ext) (simp add: object_ok_def split: option.splits)

lemma hook_ok_fired [simp]: "hook_ok (w\<lparr>fired := x\<rparr>) = hook_ok w"
  by (rule ext) (simp add: hook_ok_def)

lemma wf_fired [simp]: "well_formed (w\<lparr>fired := x\<rparr>) = well_formed w"
  by (simp add: well_formed_def)

lemma wf_set_node:
  assumes wf: "well_formed w" and n: "fetch (nodes w) ov = Some n"
    and c: "on_click n' = on_click n"
  shows "well_formed (set_node w ov n')"
proof (rule well_formedI)
  fix j assume "j < length (insts (set_node w ov n'))"
  then have ok: "object_ok w j" using well_formedD(1) [OF wf] by simp
  show "object_ok (set_node w ov n') j"
  proof (rule object_ok_mono [OF ok])
    fix ov' m assume "node_of w j = Some (ov', m)"
    then show "\<exists>n''. node_of (set_node w ov n') j = Some (ov', n'') \<and> on_click n'' = on_click m"
      using n c by (auto simp: node_of_def fetch_def nth_list_update split: option.splits if_splits)
  qed simp_all
next
  fix b assume "b \<in> set (bound (set_node w ov n'))"
  then show "hook_ok (set_node w ov n') b"
    using well_formedD(2) [OF wf, of b] by (auto intro: hook_ok_mono)
next
  show "distinct (map overlay (insts (set_node w ov n')))"
    using well_formedD(3) [OF wf] by simp
qed

lemma object_ok_node_bound:
  assumes "object_ok w j"
  obtains l ov where "fetch (insts w) j = Some l" "overlay l = Some ov" "ov < length (nodes w)"
  using assms
  by (auto simp: object_ok_def node_of_def fetch_def split: option.splits if_splits)

lemma wf_overlay_bound:
  assumes wf: "well_formed w" and "l \<in> set (insts w)"
  shows "\<exists>ov. overlay l = Some ov \<and> ov < length (nodes w)"
proof -
  from assms(2) obtain j where j: "j < length (insts w)" and l: "insts w ! j = l"
    by (auto simp: in_set_conv_nth)
  from well_formedD(1) [OF wf j] show ?thesis
    by (rule object_ok_node_bound) (use j l in \<open>auto simp: fetch_def\<close>)
qed

lemma wf_attach_new:
  assumes wf: "well_formed w" and fresh: "data w e = None"
    and new: "new_Loading w e p = (w', i)"
  shows "well_formed (w'\<lparr>data := (data w')(e := Some i)\<rparr>)"
proof (rule well_formedI)
  note eq = new_Loading_eq [OF new]
  let ?w1 = "w'\<lparr>data := (data w')(e := Some i)\<rparr>"
  fix j assume "j < length (insts ?w1)"
  then consider (old) "j < length (insts w)" | (new) "j = length (insts w)"
    using eq(2) by (auto simp: less_Suc_eq)
  then show "object_ok ?w1 j"
  proof cases
    case old
    have ok: "object_ok w j" by (rule well_formedD(1) [OF wf old])
    show ?thesis
    proof (rule object_ok_mono [OF ok])
      show "fetch (insts ?w1) j = fetch (insts w) j"
        using old eq(2) by (simp add: fetch_append_old)
    next
      fix l assume "fetch (insts w) j = Some l"
      with ok have "data w (element l) = Some j" by (simp add: object_ok_def)
      with fresh have "element l \<noteq> e" by auto
      then show "data ?w1 (element l) = data w (element l)"
        using eq(8) by simp
    next
      fix ov n assume nd: "node_of w j = Some (ov, n)"
      then have "fetch (nodes w) ov = Some n" by (simp add: node_of_SomeD)
      then have "ov < length (nodes w)" by (auto simp: fetch_def split: if_splits)
      then show "\<exists>n'. node_of ?w1 j = Some (ov, n') \<and> on_click n' = on_click n"
        using nd old eq(2,3)
        by (auto simp: node_of_def fetch_append_old split: option.splits)
    qed (use eq in auto)
  next
    case new
    show ?thesis
      using eq new by (simp add: object_ok_def node_of_def)
  qed
next
  note eq = new_Loading_eq [OF new]
  let ?w1 = "w'\<lparr>data := (data w')(e := Some i)\<rparr>"
  fix b assume b: "b \<in> set (bound ?w1)"
  have old: "hook_ok ?w1 b" if "b \<in> set (bound w)"
  proof (rule hook_ok_mono [OF well_formedD(2) [OF wf that]])
    fix k l assume "fetch (insts w) k = Some l"
    then show "map_option element (fetch (insts ?w1) k) = Some (element l)"
      using eq(2) by (auto simp: fetch_def nth_append split: if_splits)
  qed
  from b eq(5) consider "b \<in> set (bound w)" | "b = (e, ''loading.start'', CallOnStart i)"
    | "b = (e, ''loading.stop'', CallOnStop i)" | "b = (e, ''loading.click'', CallOnClick i)"
    by auto
  then show "hook_ok ?w1 b"
    using old eq(1,2) by cases (simp_all add: hook_ok_def)
next
  note eq = new_Loading_eq [OF new]
  have "Some (length (nodes w)) \<notin> set (map overlay (insts w))"
    using wf_overlay_bound [OF wf] by force
  then show "distinct (map overlay (insts (w'\<lparr>data := (data w')(e := Some i)\<rparr>)))"
    using well_formedD(3) [OF wf] eq(2) by simp
qed

lemma wf_attach:
  assumes "well_formed w" and "attach w e a = (w1, i)"
  shows "well_formed w1"
proof (cases "data w e")
  case None
  then show ?thesis
    using assms wf_attach_new [OF assms(1) None, of "ctor_options a"]
    by (auto simp: attach_def split: prod.splits)
next
  case (Some j)
  then show ?thesis using assms by (simp add: attach_def)
qed

lemma wf_options: "well_formed w \<Longrightarrow> well_formed (options w i p)"
proof (cases "fetch (insts w) i")
  case None
  assume "well_formed w"
  with None show ?thesis by (simp add: options_def)
next
  case (Some l)
  assume wf: "well_formed w"
  let ?w1 = "w\<lparr>insts := (insts w)[i := l\<lparr>settings := jq_extend (settings l) p\<rparr>]\<rparr>"
  have els: "map element (insts ?w1) = map element (insts w)"
    and ovs: "map overlay (insts ?w1) = map overlay (insts w)"
    using Some by (auto simp: fetch_def map_update list_update_same_conv split: if_splits)
  have f: "map_option element (fetch (insts ?w1) k) = map_option element (fetch (insts w) k)"
    "map_option overlay (fetch (insts ?w1) k) = map_option overlay (fetch (insts w) k)" for k
    using Some by (auto simp: fetch_def nth_list_update split: if_splits)
  have "well_formed ?w1"
  proof (rule well_formedI)
    fix j assume "j < length (insts ?w1)"
    then have ok: "object_ok w j" using well_formedD(1) [OF wf] by simp
    then show "object_ok ?w1 j"
      using f [of j] 
      by (auto simp: object_ok_def node_of_def split: option.splits)
  next
    fix b assume "b \<in> set (bound ?w1)"
    then have "hook_ok w b" using well_formedD(2) [OF wf] by simp
    then show "hook_ok ?w1 b"
      by (rule hook_ok_mono) (use f in auto)
  next
    show "distinct (map overlay (insts ?w1))"
      using well_formedD(3) [OF wf] ovs by simp
  qed
  then show ?thesis using Some by (simp add: options_def)
qed



lemma trigger_Node_world:
  "world_of (trigger w e ev (Node ov)) = w\<lparr>fired := fired w @ [(e, ev, Node ov)]\<rparr>"
  by (simp add: trigger_def run_hooks_Node)

lemma run_clicks_last:
  "world_of (case r of Done w' \<Rightarrow> run_clicks w' [] ov | Thrown x w' \<Rightarrow> Thrown x w') = world_of r"
  by (cases r) simp_all

lemma click_wf:
  assumes wf: "well_formed w" and l: "fetch (insts w) i = Some l"
    and n: "node_of w i = Some (ov, n)"
  shows "\<exists>k>0. world_of (click w ov) =
           (if StopOnClick i \<in> set (on_click n)
            then (set_node (w\<lparr>fired := fired w @ [(element l, ''loading.stop'', Instance i)]\<rparr>) ov
                    (n\<lparr>fx_state := fold enqueue
                         (concat (replicate k (callback_fx (onStop (settings l))))) (fx_state n)\<rparr>))
                 \<lparr>fired := fired w @ [(element l, ''loading.stop'', Instance i),
                                      (element l, ''loading.click'', Node ov)]\<rparr>
            else w\<lparr>fired := fired w @ [(element l, ''loading.click'', Node ov)]\<rparr>)"
proof -
  from wf l n have c: "on_click n = [TriggerClick i] \<or> on_click n = [StopOnClick i, TriggerClick i]"
    by (auto elim!: wf_node)
  have f: "fetch (nodes w) ov = Some n" using node_of_SomeD [OF n] by simp
  from stop_wf [OF wf l n] obtain k where k: "0 < k"
    and s: "stop w i =
       Done (set_node (w\<lparr>fired := fired w @ [(element l, ''loading.stop'', Instance i)]\<rparr>) ov
         (n\<lparr>fx_state := fold enqueue (concat (replicate k (callback_fx (onStop (settings l)))))
              (fx_state n)\<rparr>))"
    by blast
  from c show ?thesis
  proof
    assume "on_click n = [TriggerClick i]"
    then show ?thesis
      using f l k by (auto simp: click_def run_clicks_last trigger_Node_world)
  next
    assume "on_click n = [StopOnClick i, TriggerClick i]"
    then show ?thesis
      using f l k s
      by (auto simp: click_def run_clicks_last trigger_Node_world intro!: exI [of _ k])
  qed
qed


lemma resize_frames [simp]:
  "insts (resize w j) = insts w" "layout (resize w j) = layout w"
  "on_resize (resize w j) = on_resize w" "on_ready (resize w j) = on_ready w"
  by (simp_all add: resize_def Let_def split: option.splits)

lemma wf_resize: "well_formed w \<Longrightarrow> well_formed (resize w j)"
  by (auto simp: resize_def Let_def split: option.splits dest!: node_of_SomeD intro!: wf_set_node)




lemma wf_start: "well_formed w \<Longrightarrow> well_formed (world_of (start w i))"
proof (cases "fetch (insts w) i")
  case None
  assume "well_formed w"
  with None show ?thesis by (simp add: start_def)
next
  case (Some l)
  assume wf: "well_formed w"
  from wf Some obtain ov n where n: "node_of w i = Some (ov, n)" by (rule wf_node)
  from start_wf [OF wf Some n] node_of_SomeD [OF n] wf show ?thesis
    by (auto intro!: wf_set_node)
qed

lemma wf_stop: "well_formed w \<Longrightarrow> well_formed (world_of (stop w i))"
proof (cases "fetch (insts w) i")
  case None
  assume "well_formed w"
  with None show ?thesis by (simp add: stop_def)
next
  case (Some l)
  assume wf: "well_formed w"
  from wf Some obtain ov n where n: "node_of w i = Some (ov, n)" by (rule wf_node)
  from stop_wf [OF wf Some n] node_of_SomeD [OF n] wf show ?thesis
    by (auto intro!: wf_set_node)
qed

lemma wf_toggle: "well_formed w \<Longrightarrow> well_formed (world_of (toggle w i))"
  by (simp add: toggle_def wf_start wf_stop)

lemma wf_click:
  assumes wf: "well_formed w" and l: "fetch (insts w) i = Some l"
    and n: "node_of w i = Some (ov, n)"
  shows "well_formed (world_of (click w ov))"
  using click_wf [OF wf l n] node_of_SomeD [OF n] wf
  by (auto intro!: wf_set_node)

lemma wf_fold_resize: "well_formed w \<Longrightarrow> well_formed (fold (\<lambda>j w'. resize w' j) js w)"
  by (induction js arbitrary: w) (simp_all add: wf_resize)

lemma wf_window_resize: "well_formed w \<Longrightarrow> well_formed (window_resize w)"
  by (simp add: window_resize_def wf_fold_resize)

lemma wf_document_ready: "well_formed w \<Longrightarrow> well_formed (document_ready w)"
  by (simp add: document_ready_def wf_fold_resize)

lemma wf_fades_complete: "well_formed w \<Longrightarrow> well_formed (fades_complete w ov)"
  by (auto simp: fades_complete_def split: option.splits intro!: wf_set_node)

lemma wf_call_method:
  assumes "well_formed w" and "public_call (Method name args)"
  shows "well_formed (world_of (call_method host w i name args))"
  using assms
  by (auto simp: call_method_def wf_start wf_stop wf_toggle wf_resize wf_options)

text \<open>Every call of the documented interface, every click on an overlay and every event
  of the page keeps the world well formed.\<close>

lemma wf_loading_each:
  assumes wf: "well_formed w" and pub: "public_call a"
  shows "well_formed (world_of (loading_each host w e a))"
proof -
  obtain w1 i where at: "attach w e a = (w1, i)" by (cases "attach w e a")
  have wf1: "well_formed w1" by (rule wf_attach [OF wf at])
  show ?thesis
  proof (cases a)
    case NoArg
    then show ?thesis using at wf1 by (simp add: loading_each_def wf_start)
  next
    case (Config p)
    then show ?thesis using at wf1 by (simp add: loading_each_def wf_start)
  next
    case (Method name args)
    then show ?thesis
      using at wf_call_method [OF wf1 pub [unfolded Method]]
      by (simp add: loading_each_def)
  qed
qed

lemma wf_fn_loading:
  assumes "well_formed w" and "public_call a"
  shows "well_formed (world_of (fn_loading host w es a))"
  using assms(1)
proof (induction es arbitrary: w)
  case Nil
  then show ?case by simp
next
  case (Cons e es)
  from wf_loading_each [OF Cons.prems assms(2), of host e] Cons.IH
  show ?case by (cases "loading_each host w e a") simp_all
qed




subsection \<open>Nothing is built twice\<close>

lemma nothing_built_refl [simp]: "nothing_built w w"
  by (simp add: nothing_built_def)


lemma nothing_built_set_node [simp]: "nothing_built w (set_node w ov n)"
  by (simp add: nothing_built_def)

lemma nothing_built_fired [simp]: "nothing_built w (w\<lparr>fired := x\<rparr>)"
  by (simp add: nothing_built_def)














subsection \<open>The selector\<close>

text \<open>
  C3. The \<^verbatim>\<open>:loading\<close> selector holds of an element exactly when the element has a
  Loading object attached and that object's \<^verbatim>\<open>active()\<close> is true; an element with no
  object attached is not loading.
\<close>

theorem selector_matches_active:
  "(loading_selector w e \<longleftrightarrow> (\<exists>i. data w e = Some i \<and> active w i))
   \<and> (data w e = None \<longrightarrow> \<not> loading_selector w e)"
  by (simp add: loading_selector_def split: option.splits)

theorem selector_matches_active_witness:
  "loading_selector demo_world 1 \<and> data demo_world 1 = Some 0 \<and> active demo_world 0
   \<and> data demo_world 2 = None \<and> \<not> loading_selector demo_world 2"
  using selector_matches_active [of demo_world 1] selector_matches_active [of demo_world 2]
  by (simp add: demo_world_eq active_def node_of_def fetch_def)

subsection \<open>Calling a method by name\<close>

text \<open>
  C9. On an element that already has its Loading object, a string that names neither a
  method of the prototype nor anything the object inherits is not checked: the script
  tries to call it and the call throws, leaving the page as it was.
\<close>

theorem unknown_method_throws:
  assumes "data w e = Some i"
    and "name \<notin> set prototype_methods"
    and "host name = None"
  shows "loading_each host w e (Method name args) = Thrown TypeError w"
  using assms
  by (simp add: loading_each_def attach_def call_method_def prototype_methods_def)

theorem unknown_method_throws_witness:
  "data demo_world 1 = Some 0 \<and> ''destroy'' \<notin> set prototype_methods
   \<and> no_host ''destroy'' = None
   \<and> loading_each no_host demo_world 1 (Method ''destroy'' []) = Thrown TypeError demo_world"
  using unknown_method_throws [of demo_world 1 0 "''destroy''" no_host "[]"]
  by (simp add: demo_world_eq prototype_methods_def no_host_def)

subsection \<open>Settings\<close>

lemma setting_jq_extend:
  "setting (jq_extend s p) k = (case given p k of Some v \<Rightarrow> Some v | None \<Rightarrow> setting s k)"
  by (cases k; cases "o_message p"; cases "o_theme p"; cases "o_stoppable p"; cases "o_onStart p";
      cases "o_onStop p"; cases "o_onClick p"; cases "o_fullPage p"; cases "o_start p")
     (simp_all add: jq_extend_def)

lemma setting_fullPage_update:
  "setting (s\<lparr>fullPage := b\<rparr>) k = (if k = FullPage then map_option Bool b else setting s k)"
  by (cases k) simp_all

text \<open>
  C7, as the script has it. \<^verbatim>\<open>options(p)\<close> replaces the settings of the object by their
  shallow merge with \<open>p\<close>: a key that \<open>p\<close> gives takes the value of \<open>p\<close>, every other key
  keeps its value. The constructor merges the defaults with the options of the call in the
  same way, except for the key \<^verbatim>\<open>fullPage\<close>, which it then sets to whether the element is
  the document body (line 14), whatever the caller gave.
\<close>

theorem options_shallow_merge:
  "(fetch (insts w) i = Some l \<longrightarrow>
      fetch (insts (options w i p)) i = Some (l\<lparr>settings := jq_extend (settings l) p\<rparr>)
      \<and> (\<forall>k. setting (jq_extend (settings l) p) k =
               (case given p k of Some v \<Rightarrow> Some v | None \<Rightarrow> setting (settings l) k)))
   \<and> (new_Loading w e p = (w', j) \<longrightarrow>
        (\<exists>l'. fetch (insts w') j = Some l'
           \<and> (\<forall>k. setting (settings l') k =
                 (if k = FullPage then Some (Bool (is_body (layout w e)))
                  else (case given p k of Some v \<Rightarrow> Some v | None \<Rightarrow> setting (defaults w) k)))))"
proof (intro conjI impI)
  assume l: "fetch (insts w) i = Some l"
  then show "fetch (insts (options w i p)) i = Some (l\<lparr>settings := jq_extend (settings l) p\<rparr>)"
    by (auto simp: options_def fetch_def split: if_splits)
  show "\<forall>k. setting (jq_extend (settings l) p) k =
               (case given p k of Some v \<Rightarrow> Some v | None \<Rightarrow> setting (settings l) k)"
    by (simp add: setting_jq_extend)
next
  assume n: "new_Loading w e p = (w', j)"
  show "\<exists>l'. fetch (insts w') j = Some l'
           \<and> (\<forall>k. setting (settings l') k =
                 (if k = FullPage then Some (Bool (is_body (layout w e)))
                  else (case given p k of Some v \<Rightarrow> Some v | None \<Rightarrow> setting (defaults w) k)))"
    using new_Loading_eq(1,2) [OF n]
    by (simp add: setting_fullPage_update setting_jq_extend)
qed

theorem options_shallow_merge_witness:
  "fetch (insts demo_world) 0 = Some demo_loading
   \<and> map_option message (map_option settings (fetch (insts (options demo_world 0 wait_options)) 0))
       = Some ''Wait''
   \<and> setting (jq_extend (settings demo_loading) wait_options) Theme = Some (Str ''light'')
   \<and> setting (settings (insts (fst (new_Loading demo_world 2 wait_options)) ! 1)) Message
       = Some (Str ''Wait'')"
proof -
  let ?r = "new_Loading demo_world 2 wait_options"
  have n: "?r = (fst ?r, snd ?r)" by simp
  have j: "snd ?r = 1" by (simp add: new_Loading_def demo_world_eq Let_def)
  have len: "length (insts (fst ?r)) = 2"
    using new_Loading_eq(2) [OF n] by (simp add: demo_world_eq)
  from options_shallow_merge [where w = demo_world and i = 0 and l = demo_loading
      and p = wait_options and e = 2 and w' = "fst ?r" and j = "snd ?r"] demo_fetch n
  have a: "fetch (insts (options demo_world 0 wait_options)) 0
            = Some (demo_loading\<lparr>settings := jq_extend (settings demo_loading) wait_options\<rparr>)"
    and b: "\<forall>k. setting (jq_extend (settings demo_loading) wait_options) k =
               (case given wait_options k of Some v \<Rightarrow> Some v
                | None \<Rightarrow> setting (settings demo_loading) k)"
    and c: "\<exists>l'. fetch (insts (fst ?r)) (snd ?r) = Some l'
           \<and> (\<forall>k. setting (settings l') k =
                 (if k = FullPage then Some (Bool (is_body (layout demo_world 2)))
                  else (case given wait_options k of Some v \<Rightarrow> Some v
                        | None \<Rightarrow> setting (defaults demo_world) k)))"
    by blast+
  from c obtain l' where f: "fetch (insts (fst ?r)) (snd ?r) = Some l'"
    and all: "\<forall>k. setting (settings l') k =
                 (if k = FullPage then Some (Bool (is_body (layout demo_world 2)))
                  else (case given wait_options k of Some v \<Rightarrow> Some v
                        | None \<Rightarrow> setting (defaults demo_world) k))"
    by blast
  from all [rule_format, of Message] have "setting (settings l') Message = Some (Str ''Wait'')"
    by (simp add: wait_options_def no_options_def)
  with f j len have c': "setting (settings (insts (fst ?r) ! 1)) Message = Some (Str ''Wait'')"
    by (auto simp: fetch_def)
  from b [rule_format, of Theme]
  have b': "setting (jq_extend (settings demo_loading) wait_options) Theme = Some (Str ''light'')"
    by (simp add: wait_options_def no_options_def demo_loading_def Loading_defaults_def)
  from a have a': "map_option message (map_option settings
      (fetch (insts (options demo_world 0 wait_options)) 0)) = Some ''Wait''"
    by (simp add: jq_extend_def wait_options_def no_options_def)
  show ?thesis using a' b' c' demo_fetch by simp
qed

text \<open>
  C7 as stated fails at construction: the caller passes \<^verbatim>\<open>fullPage: true\<close> for the box,
  and the settings of the new object hold \<^verbatim>\<open>fullPage: false\<close>.
\<close>

theorem constructor_overrides_fullPage:
  "given full_page_options FullPage = Some (Bool True)
   \<and> \<not> is_body (demo_layout 1)
   \<and> length (insts (fst (new_Loading (empty_world demo_layout) 1 full_page_options))) = 1
   \<and> setting (settings (insts (fst (new_Loading (empty_world demo_layout) 1 full_page_options)) ! 0))
        FullPage = Some (Bool False)"
  by (simp add: full_page_options_def demo_layout_def script_defs Let_def)

subsection \<open>The overlay after construction\<close>



subsection \<open>Starting and stopping\<close>




subsection \<open>Attaching\<close>







subsection \<open>Notifications and clicks\<close>

text \<open>
  C2, what the script does. \<^verbatim>\<open>start()\<close> and \<^verbatim>\<open>stop()\<close> each trigger their notification once
  on the element, with the Loading object as payload. The click handler of line 129
  triggers \<^verbatim>\<open>loading.click\<close> with \<^verbatim>\<open>this\<close>, which is the clicked overlay node, not the
  Loading object.
\<close>

theorem notification_payloads:
  assumes wf: "well_formed w" and l: "fetch (insts w) i = Some l"
    and n: "node_of w i = Some (ov, n)"
  shows "fired (world_of (start w i)) = fired w @ [(element l, ''loading.start'', Instance i)]
       \<and> fired (world_of (stop w i)) = fired w @ [(element l, ''loading.stop'', Instance i)]
       \<and> last (fired (world_of (click w ov))) = (element l, ''loading.click'', Node ov)"
proof (intro conjI)
  from start_wf [OF wf l n]
  show "fired (world_of (start w i)) = fired w @ [(element l, ''loading.start'', Instance i)]"
    by auto
  from stop_wf [OF wf l n]
  show "fired (world_of (stop w i)) = fired w @ [(element l, ''loading.stop'', Instance i)]"
    by auto
  from click_wf [OF wf l n]
  show "last (fired (world_of (click w ov))) = (element l, ''loading.click'', Node ov)"
    by auto
qed

theorem notification_payloads_witness:
  "well_formed demo_world \<and> fetch (insts demo_world) 0 = Some demo_loading
   \<and> node_of demo_world 0 = Some (0, nodes demo_world ! 0)
   \<and> last (fired (world_of (click demo_world 0))) = (1, ''loading.click'', Node 0)
   \<and> Node 0 \<noteq> Instance 0"
proof -
  have n: "node_of demo_world 0 = Some (0, nodes demo_world ! 0)"
    by (simp add: demo_world_eq node_of_def fetch_def)
  from notification_payloads [OF wf_demo demo_fetch n]
  show ?thesis using n by (simp add: wf_demo demo_fetch demo_loading_def)
qed




subsection \<open>Laying out the overlay\<close>



end
